theory Spec2Isabelle
  imports Complex_Main
begin

section \<open>Shared vocabulary of the two pages\<close>

text \<open>
  The repository is a React front end with two components: \<open>HomePage\<close> (upload screen)
  and \<open>EditorPage\<close> (scene editor, audio preview, export dialog). Both are embedded as
  explicit state machines: the values kept by \<open>useState\<close> form a record, every handler is
  a function on that record, and everything a handler does to the outside world (toasts,
  HTTP requests, navigation, audio elements, timers) is written to a list of effects in
  the order in which the source performs it. The outcome of an awaited promise is an
  argument of the handler, so both the \<open>try\<close> and the \<open>catch\<close> path are branches of the
  model.
\<close>

text \<open>A browser \<open>File\<close>: the handlers read \<open>file.name\<close> and \<open>file.type\<close> only.\<close>

record File =
  file_name :: string
  file_type :: string

datatype http_body =
    NoBody
  | FormData File
  | JsonDescription string
  | JsonFormat string

datatype effect =
    PreventDefault
  | StopPropagation
  | ToastError string
  | ToastSuccess string
  | ToastInfo string
  | ConsoleError string
  | HttpPost string http_body
  | HttpGet string
  | HttpPut string http_body
  | Navigate string
  | AudioNew nat string
  | AudioPause nat
  | AudioSetCurrentTime nat real
  | AudioPlay nat
  | SetInterval nat nat
  | ClearInterval nat
  | SetTimeout nat
  | Fetch string
  | LinkClick string

text \<open>The outcome of an awaited promise.\<close>

datatype 'a outcome = Rejected | Resolved 'a

text \<open>\<open>const API = `${BACKEND_URL}/api`\<close>; the origin comes from the environment.\<close>

definition API :: "string \<Rightarrow> string" where
  "API BACKEND_URL = BACKEND_URL @ ''/api''"

text \<open>\<open>String.prototype.startsWith\<close>.\<close>

definition startsWith :: "string \<Rightarrow> string \<Rightarrow> bool" where
  "startsWith s p = (take (length p) s = p)"

text \<open>Observations on an effect list.\<close>

fun is_request :: "effect \<Rightarrow> bool" where
  "is_request (HttpPost _ _) = True"
| "is_request (HttpGet _) = True"
| "is_request (HttpPut _ _) = True"
| "is_request (Fetch _) = True"
| "is_request _ = False"

fun is_navigate :: "effect \<Rightarrow> bool" where
  "is_navigate (Navigate _) = True"
| "is_navigate _ = False"

fun is_toast_error :: "effect \<Rightarrow> bool" where
  "is_toast_error (ToastError _) = True"
| "is_toast_error _ = False"

definition requests :: "effect list \<Rightarrow> effect list" where
  "requests tr = filter is_request tr"

text \<open>\<open>occurs_before x y tr\<close>: \<open>y\<close> occurs after the first occurrence of \<open>x\<close>.\<close>

fun occurs_before :: "effect \<Rightarrow> effect \<Rightarrow> effect list \<Rightarrow> bool" where
  "occurs_before x y [] = False"
| "occurs_before x y (e # es) = (if e = x then y \<in> set es else occurs_before x y es)"

section \<open>HomePage: selecting and uploading a video\<close>

record home_state =
  selectedFile :: "File option"
  uploading :: bool
  dragActive :: bool

definition HomePage_init :: home_state where
  "HomePage_init = \<lparr>selectedFile = None, uploading = False, dragActive = False\<rparr>"

text \<open>
  A drag or change event: its \<open>type\<close> and its file list (\<open>e.dataTransfer.files\<close>,
  \<open>e.target.files\<close>), which the handlers guard against being absent.
\<close>

record dom_event =
  event_type :: string
  event_files :: "File list option"

definition handleDrag :: "dom_event \<Rightarrow> home_state \<Rightarrow> home_state \<times> effect list" where
  "handleDrag e s =
     (if event_type e = ''dragenter'' \<or> event_type e = ''dragover''
        then (s\<lparr>dragActive := True\<rparr>, [PreventDefault, StopPropagation])
      else if event_type e = ''dragleave''
        then (s\<lparr>dragActive := False\<rparr>, [PreventDefault, StopPropagation])
      else (s, [PreventDefault, StopPropagation]))"

text \<open>
  The shared tail of \<open>handleDrop\<close> and \<open>handleFileSelect\<close>:
  \<^verbatim>\<open>
  if (files && files[0]) {
    const file = files[0];
    if (file.type.startsWith('video/')) setSelectedFile(file);
    else toast.error('Please upload a video file');
  }\<close>
\<close>

definition select_first :: "File list option \<Rightarrow> home_state \<Rightarrow> home_state \<times> effect list" where
  "select_first files s =
     (case files of
        None \<Rightarrow> (s, [])
      | Some [] \<Rightarrow> (s, [])
      | Some (f # _) \<Rightarrow>
          if startsWith (file_type f) ''video/''
            then (s\<lparr>selectedFile := Some f\<rparr>, [])
            else (s, [ToastError ''Please upload a video file'']))"

definition handleDrop :: "dom_event \<Rightarrow> home_state \<Rightarrow> home_state \<times> effect list" where
  "handleDrop e s =
     (let (s', tr) = select_first (event_files e) (s\<lparr>dragActive := False\<rparr>)
      in (s', [PreventDefault, StopPropagation] @ tr))"

definition handleFileSelect :: "dom_event \<Rightarrow> home_state \<Rightarrow> home_state \<times> effect list" where
  "handleFileSelect e s = select_first (event_files e) s"

text \<open>
  \<open>handleUpload\<close>. \<open>up\<close> is the outcome of \<open>POST /upload\<close> (the \<open>id\<close> of the response);
  \<open>an\<close> gives the outcome of a \<open>POST\<close> to the analysis URL the handler builds, so the
  model does not presuppose which URL is requested. The \<open>catch\<close> block serves both
  awaits; \<open>finally\<close> clears \<open>uploading\<close>.
\<close>

definition upload_failed :: "effect list" where
  "upload_failed = [ConsoleError ''Upload error:'', ToastError ''Failed to upload video'']"

definition handleUpload ::
  "string \<Rightarrow> string outcome \<Rightarrow> (string \<Rightarrow> unit outcome) \<Rightarrow> home_state
     \<Rightarrow> home_state \<times> effect list" where
  "handleUpload BACKEND_URL up an s =
     (case selectedFile s of
        None \<Rightarrow> (s, [ToastError ''Please select a video file''])
      | Some f \<Rightarrow>
          (let s1 = s\<lparr>uploading := True\<rparr>;
               tr1 = [HttpPost (API BACKEND_URL @ ''/upload'') (FormData f)];
               tr2 =
                 (case up of
                    Rejected \<Rightarrow> tr1 @ upload_failed
                  | Resolved projectId \<Rightarrow>
                      (let analyzeUrl = API BACKEND_URL @ ''/analyze/'' @ projectId;
                           tr3 = tr1 @ [ToastSuccess ''Video uploaded successfully!'',
                                        ToastInfo ''Analyzing video for scene cuts...'',
                                        HttpPost analyzeUrl NoBody]
                       in case an analyzeUrl of
                            Rejected \<Rightarrow> tr3 @ upload_failed
                          | Resolved _ \<Rightarrow>
                              tr3 @ [ToastSuccess ''Analysis complete!'',
                                     Navigate (''/editor/'' @ projectId)]))
           in (s1\<lparr>uploading := False\<rparr>, tr2)))"

text \<open>
  Runs of the upload screen: any sequence of the user's actions, each upload with the
  outcomes of its two requests. A run returns the final state and all effects so far.
\<close>

datatype home_event =
    Drag dom_event
  | Drop dom_event
  | FileSelect dom_event
  | Upload "string outcome" "string \<Rightarrow> unit outcome"

fun home_step :: "string \<Rightarrow> home_state \<Rightarrow> home_event \<Rightarrow> home_state \<times> effect list" where
  "home_step B s (Drag e) = handleDrag e s"
| "home_step B s (Drop e) = handleDrop e s"
| "home_step B s (FileSelect e) = handleFileSelect e s"
| "home_step B s (Upload up an) = handleUpload B up an s"

fun home_run ::
  "string \<Rightarrow> home_state \<times> effect list \<Rightarrow> home_event list \<Rightarrow> home_state \<times> effect list" where
  "home_run B st [] = st"
| "home_run B (s, tr) (ev # evs) =
     (let (s', tr') = home_step B s ev in home_run B (s', tr @ tr') evs)"

text \<open>The selection, if any, has a video type; a request that carries a file carries a video.\<close>

definition video_selection :: "home_state \<Rightarrow> bool" where
  "video_selection s =
     (case selectedFile s of None \<Rightarrow> True | Some v \<Rightarrow> startsWith (file_type v) ''video/'')"

fun carries_video :: "effect \<Rightarrow> bool" where
  "carries_video (HttpPost _ (FormData g)) = startsWith (file_type g) ''video/''"
| "carries_video _ = True"

section \<open>EditorPage: scenes, audio preview, export\<close>

record scene =
  scene_id :: string
  timestamp :: real
  description :: string
  thumbnail_path :: string
  audio_path :: string

record project =
  project_id :: string
  original_filename :: string

text \<open>
  An \<open>HTMLAudioElement\<close> as far as the component touches it. The elements live in a
  store (\<open>audios\<close>); a reference to one is its index there. An element is in a playing
  state exactly when its \<open>paused\<close> attribute is false.
\<close>

record audio =
  src :: string
  paused :: bool
  currentTime :: real

text \<open>
  The \<open>useState\<close> values of the component, the route parameter \<open>projectId\<close>, and the
  part of the browser the component acts on: the audio elements it has created, the
  \<open>setInterval\<close> timers that are active, and the list of effects so far.
\<close>

record editor_state =
  projectId :: string
  project :: "project option"
  scenes :: "scene list"
  loading :: bool
  editingScene :: "string option"
  editText :: string
  saving :: bool
  exporting :: bool
  showExportDialog :: bool
  exportFormat :: string
  currentAudio :: "nat option"
  exportProgress :: real
  estimatedTime :: nat
  audios :: "audio list"
  intervals :: "nat set"
  next_timer :: nat
  effects :: "effect list"

definition EditorPage_init :: "string \<Rightarrow> editor_state" where
  "EditorPage_init pid =
     \<lparr>projectId = pid, project = None, scenes = [], loading = True, editingScene = None,
      editText = [], saving = False, exporting = False, showExportDialog = False,
      exportFormat = ''mp4'', currentAudio = None, exportProgress = 0, estimatedTime = 0,
      audios = [], intervals = {}, next_timer = 0, effects = []\<rparr>"

subsection \<open>Browser primitives\<close>

definition emit :: "effect \<Rightarrow> editor_state \<Rightarrow> editor_state" where
  "emit e s = s\<lparr>effects := effects s @ [e]\<rparr>"

definition new_Audio :: "string \<Rightarrow> editor_state \<Rightarrow> nat \<times> editor_state" where
  "new_Audio url s =
     (length (audios s),
      emit (AudioNew (length (audios s)) url)
        (s\<lparr>audios := audios s @ [\<lparr>src = url, paused = True, currentTime = 0\<rparr>]\<rparr>))"

definition audio_pause :: "nat \<Rightarrow> editor_state \<Rightarrow> editor_state" where
  "audio_pause a s =
     emit (AudioPause a) (s\<lparr>audios := (audios s)[a := (audios s ! a)\<lparr>paused := True\<rparr>]\<rparr>)"

definition audio_set_currentTime :: "nat \<Rightarrow> real \<Rightarrow> editor_state \<Rightarrow> editor_state" where
  "audio_set_currentTime a t s =
     emit (AudioSetCurrentTime a t)
       (s\<lparr>audios := (audios s)[a := (audios s ! a)\<lparr>currentTime := t\<rparr>]\<rparr>)"

definition audio_play :: "nat \<Rightarrow> editor_state \<Rightarrow> editor_state" where
  "audio_play a s =
     emit (AudioPlay a) (s\<lparr>audios := (audios s)[a := (audios s ! a)\<lparr>paused := False\<rparr>]\<rparr>)"

definition setInterval :: "nat \<Rightarrow> editor_state \<Rightarrow> nat \<times> editor_state" where
  "setInterval ms s =
     (next_timer s,
      emit (SetInterval (next_timer s) ms)
        (s\<lparr>intervals := insert (next_timer s) (intervals s), next_timer := Suc (next_timer s)\<rparr>))"

definition clearInterval :: "nat \<Rightarrow> editor_state \<Rightarrow> editor_state" where
  "clearInterval t s = emit (ClearInterval t) (s\<lparr>intervals := intervals s - {t}\<rparr>)"

text \<open>\<open>str.split(c)\<close> and \<open>toUpperCase\<close> (on ASCII letters).\<close>

fun split :: "string \<Rightarrow> char \<Rightarrow> string list" where
  "split [] c = [[]]"
| "split (x # xs) c =
     (if x = c then [] # split xs c
      else (case split xs c of [] \<Rightarrow> [[x]] | w # ws \<Rightarrow> (x # w) # ws))"

definition pop :: "string list \<Rightarrow> string" where
  "pop xs = (case xs of [] \<Rightarrow> ''undefined'' | _ \<Rightarrow> last xs)"

definition toUpperCase :: "string \<Rightarrow> string" where
  "toUpperCase str =
     map (\<lambda>c. if 97 \<le> (of_char c :: nat) \<and> (of_char c :: nat) \<le> 122
              then char_of ((of_char c :: nat) - 32) else c) str"

subsection \<open>Tracked audio and its effect cleanup\<close>

text \<open>
  \<open>setCurrentAudio\<close> together with the effect that depends on \<open>[currentAudio]\<close>:
  \<^verbatim>\<open>
  useEffect(() => {
    return () => { if (currentAudio) { currentAudio.pause(); } };
  }, [currentAudio]);\<close>
  When the tracked reference changes, React runs the cleanup of the previous render's
  effect, whose closure holds the previously tracked element. Setting the value it
  already has causes no render and no cleanup.
\<close>

definition setCurrentAudio :: "nat option \<Rightarrow> editor_state \<Rightarrow> editor_state" where
  "setCurrentAudio v s =
     (if currentAudio s = v then s
      else (case currentAudio s of
              None \<Rightarrow> s
            | Some old \<Rightarrow> audio_pause old s)\<lparr>currentAudio := v\<rparr>)"

text \<open>
  \<open>playAudio\<close>. React applies a state update when the handler has returned, so the
  update made by \<open>setCurrentAudio(audio)\<close> (and the cleanup it triggers) is the last step
  here, after \<open>audio.play()\<close>, although the source calls the setter one line earlier.
\<close>

definition playAudio :: "string \<Rightarrow> string \<Rightarrow> editor_state \<Rightarrow> editor_state" where
  "playAudio BACKEND_URL audioPath s =
     (let s1 = (case currentAudio s of
                  None \<Rightarrow> s
                | Some cur \<Rightarrow> audio_set_currentTime cur 0 (audio_pause cur s));
          fileName = pop (split audioPath CHR ''/'');
          audioUrl = API BACKEND_URL @ ''/audio/'' @ projectId s @ ''/'' @ fileName;
          (a, s2) = new_Audio audioUrl s1;
          s3 = audio_play a s2
      in setCurrentAudio (Some a) s3)"

text \<open>
  The observers \<open>playAudio\<close> attaches to each element: \<open>onended\<close>, \<open>onerror\<close> and the
  \<open>catch\<close> of the promise returned by \<open>play()\<close>. None of them refers to the element.
\<close>

definition audio_onended :: "editor_state \<Rightarrow> editor_state" where
  "audio_onended s = setCurrentAudio None s"

definition audio_onerror :: "editor_state \<Rightarrow> editor_state" where
  "audio_onerror s = setCurrentAudio None (emit (ToastError ''Failed to play audio'') s)"

definition audio_play_catch :: "editor_state \<Rightarrow> editor_state" where
  "audio_play_catch s =
     setCurrentAudio None
       (emit (ToastError ''Failed to play audio'') (emit (ConsoleError ''Audio play error:'') s))"

subsection \<open>Loading and editing scenes\<close>

text \<open>
  \<open>loadProject\<close>: both requests are issued; \<open>Promise.all\<close> resolves only when both do.
\<close>

definition loadProject ::
  "string \<Rightarrow> project outcome \<Rightarrow> scene list outcome \<Rightarrow> editor_state \<Rightarrow> editor_state" where
  "loadProject BACKEND_URL projectRes scenesRes s =
     (let s1 = emit (HttpGet (API BACKEND_URL @ ''/projects/'' @ projectId s)) s;
          s2 = emit (HttpGet (API BACKEND_URL @ ''/projects/'' @ projectId s @ ''/scenes'')) s1;
          s3 = (case (projectRes, scenesRes) of
                  (Resolved p, Resolved sc) \<Rightarrow> s2\<lparr>project := Some p, scenes := sc\<rparr>
                | _ \<Rightarrow> emit (ToastError ''Failed to load project'')
                         (emit (ConsoleError ''Load error:'') s2))
      in s3\<lparr>loading := False\<rparr>)"

definition handleEditScene :: "scene \<Rightarrow> editor_state \<Rightarrow> editor_state" where
  "handleEditScene sc s =
     (let s1 = (case currentAudio s of
                  None \<Rightarrow> s
                | Some cur \<Rightarrow>
                    setCurrentAudio None (audio_set_currentTime cur 0 (audio_pause cur s)))
      in s1\<lparr>editingScene := Some (scene_id sc), editText := description sc\<rparr>)"

definition handleSaveScene ::
  "string \<Rightarrow> string \<Rightarrow> unit outcome \<Rightarrow> editor_state \<Rightarrow> editor_state" where
  "handleSaveScene BACKEND_URL sceneId res s =
     (let s1 = emit (HttpPut (API BACKEND_URL @ ''/scenes/'' @ sceneId)
                       (JsonDescription (editText s)))
                 (s\<lparr>saving := True\<rparr>);
          s2 = (case res of
                  Resolved _ \<Rightarrow>
                    emit (ToastSuccess ''Scene updated successfully!'')
                      (s1\<lparr>scenes := map (\<lambda>x. if scene_id x = sceneId
                                               then x\<lparr>description := editText s\<rparr> else x)
                                        (scenes s),
                          editingScene := None\<rparr>)
                | Rejected \<Rightarrow>
                    emit (ToastError ''Failed to save scene'')
                      (emit (ConsoleError ''Save error:'') s1))
      in s2\<lparr>saving := False\<rparr>)"

text \<open>What the component renders: a spinner while \<open>loading\<close>, else one card per scene.\<close>

record scene_card =
  card_number :: nat
  card_scene :: scene
  card_editing :: bool

datatype view = LoadingView | EditorView "string option" "scene_card list"

definition render :: "editor_state \<Rightarrow> view" where
  "render s =
     (if loading s then LoadingView
      else EditorView (map_option original_filename (project s))
             (map (\<lambda>(i, x). \<lparr>card_number = i + 1, card_scene = x,
                               card_editing = (editingScene s = Some (scene_id x))\<rparr>)
                  (enumerate 0 (scenes s))))"

definition scene_cards :: "view \<Rightarrow> scene_card list" where
  "scene_cards v = (case v of LoadingView \<Rightarrow> [] | EditorView _ cards \<Rightarrow> cards)"

subsection \<open>Export dialog\<close>

text \<open>
  \<open>handleExport\<close> runs in three parts: up to the \<open>await\<close> of the export request, the
  continuation when the request resolves, and the \<open>catch\<close> block when it rejects. In
  between, the browser fires the interval callback. The constants of the closure
  (\<open>progressInterval\<close>, \<open>estimatedSeconds\<close>, and the \<open>exportFormat\<close> and \<open>project\<close> of the
  render that started the export) are kept in an \<open>export_job\<close>.
\<close>

record export_job =
  progressInterval :: nat
  estimatedSeconds :: nat
  job_format :: string
  job_project :: "project option"

text \<open>\<open>Math.max(5, (scenes.length * 2) + 3)\<close>\<close>

definition estimate :: "nat \<Rightarrow> nat" where
  "estimate n = max 5 (n * 2 + 3)"

text \<open>
  The updater passed to \<open>setExportProgress\<close> by the interval callback:
  \<^verbatim>\<open>
  prev => {
    if (prev >= 85) { return Math.min(prev + 1, 95); }
    return prev + (85 / (estimatedSeconds * 2));
  }\<close>
  JavaScript numbers are IEEE doubles; the model computes with exact real numbers, so
  a value can differ from the code's in its last digits (fourteen steps of \<open>85 / 14\<close> sum
  to 85 here and to 84.99999999999999 in the code). The step 8.5 of a project with at
  most one scene, used in the examples below, is exact in both.
\<close>

definition progress_update :: "nat \<Rightarrow> real \<Rightarrow> real" where
  "progress_update est prev =
     (if prev \<ge> 85 then min (prev + 1) 95 else prev + 85 / (real est * 2))"

definition handleExport_start :: "string \<Rightarrow> editor_state \<Rightarrow> export_job \<times> editor_state" where
  "handleExport_start BACKEND_URL s =
     (let s1 = s\<lparr>exporting := True, exportProgress := 0\<rparr>;
          est = estimate (length (scenes s));
          s2 = s1\<lparr>estimatedTime := est\<rparr>;
          (t, s3) = setInterval 500 s2;
          s4 = emit (ToastInfo (''Exporting video as '' @ toUpperCase (exportFormat s) @ ''...'')) s3;
          s5 = emit (HttpPost (API BACKEND_URL @ ''/export/'' @ projectId s)
                       (JsonFormat (exportFormat s))) s4
      in (\<lparr>progressInterval = t, estimatedSeconds = est, job_format = exportFormat s,
           job_project = project s\<rparr>, s5))"

text \<open>The browser runs the callback of an interval only while the interval is active.\<close>

definition interval_fires :: "export_job \<Rightarrow> editor_state \<Rightarrow> editor_state" where
  "interval_fires job s =
     (if progressInterval job \<in> intervals s
        then s\<lparr>exportProgress := progress_update (estimatedSeconds job) (exportProgress s)\<rparr>
        else s)"

text \<open>
  The download inside the inner \<open>try\<close>: \<open>fetch\<close> rejects, or resolves with \<open>ok\<close> false
  (the handler throws \<open>Download failed\<close>), or \<open>blob()\<close> rejects, or the blob arrives.
\<close>

datatype download = FetchRejected | NotOk | BlobRejected | Blob

definition download_name :: "export_job \<Rightarrow> string" where
  "download_name job =
     ''exported_'' @
     (case job_project job of
        None \<Rightarrow> ''video''
      | Some p \<Rightarrow> if original_filename p = [] then ''video'' else original_filename p)
     @ ''.'' @ job_format job"

definition handleExport_resolved ::
  "string \<Rightarrow> export_job \<Rightarrow> string \<Rightarrow> download \<Rightarrow> editor_state \<Rightarrow> editor_state" where
  "handleExport_resolved BACKEND_URL job download_url dl s =
     (let s1 = clearInterval (progressInterval job) s;
          s2 = s1\<lparr>exportProgress := 100\<rparr>;
          s3 = emit (SetTimeout 500) s2;
          s4 = emit (ToastSuccess ''Starting download...'') s3;
          s5 = emit (Fetch (BACKEND_URL @ download_url)) s4;
          s6 = (case dl of
                  Blob \<Rightarrow>
                    emit (ToastSuccess ''Download started!'')
                      (emit (SetTimeout 100) (emit (LinkClick (download_name job)) s5))
                | _ \<Rightarrow>
                    emit (ToastError ''Download failed. Please try again.'')
                      (emit (ConsoleError ''Download error:'') s5));
          s7 = emit (SetTimeout 1500) s6
      in s7\<lparr>exporting := False\<rparr>)"

text \<open>The callback of the 1500 ms timeout that closes the dialog.\<close>

definition close_dialog_timeout :: "editor_state \<Rightarrow> editor_state" where
  "close_dialog_timeout s = s\<lparr>showExportDialog := False, exportProgress := 0, estimatedTime := 0\<rparr>"

text \<open>
  The rejection: \<open>error.response?.data?.detail\<close> and \<open>error.message\<close>, each possibly
  absent; \<open>||\<close> also skips an empty string.
\<close>

record export_error =
  error_detail :: "string option"
  error_message :: "string option"

definition or_else :: "string option \<Rightarrow> string \<Rightarrow> string" where
  "or_else x y = (case x of None \<Rightarrow> y | Some str \<Rightarrow> if str = [] then y else str)"

definition displayMessage :: "export_error \<Rightarrow> string" where
  "displayMessage err =
     (let errorMessage =
            or_else (error_detail err) (or_else (error_message err) ''Failed to export video'')
      in if length errorMessage > 100
           then ''Video export failed. Please check if all scenes have valid audio.''
           else errorMessage)"

definition handleExport_rejected :: "export_job \<Rightarrow> export_error \<Rightarrow> editor_state \<Rightarrow> editor_state" where
  "handleExport_rejected job err s =
     (let s1 = clearInterval (progressInterval job) s;
          s2 = emit (ConsoleError ''Export error:'') s1;
          s3 = emit (ToastError (displayMessage err)) s2;
          s4 = s3\<lparr>exportProgress := 0, estimatedTime := 0\<rparr>
      in s4\<lparr>exporting := False\<rparr>)"

text \<open>The state \<open>k\<close> interval callbacks into an export started in state \<open>s\<close>.\<close>

definition export_run :: "string \<Rightarrow> editor_state \<Rightarrow> nat \<Rightarrow> editor_state" where
  "export_run B s k =
     (interval_fires (fst (handleExport_start B s)) ^^ k) (snd (handleExport_start B s))"

subsection \<open>Runs of the editor\<close>

text \<open>
  Everything that can happen to a mounted editor: the user's actions, the settling of
  a request, and the callbacks the browser fires. A run applies a list of such events
  to the state at mount; each event is one turn of the event loop, taken together
  with the render it causes. The audio callbacks may fire at any time and for any
  element, also one that is no longer tracked.
\<close>

datatype editor_event =
    LoadProject "project outcome" "scene list outcome"
  | EditScene scene
  | ChangeEditText string
  | CancelEdit
  | SaveScene string "unit outcome"
  | PlayAudio string
  | AudioEnded
  | AudioError
  | AudioPlayRejected
  | OpenExportDialog
  | CloseExportDialog
  | ChooseFormat string
  | ExportStart
  | IntervalFires export_job
  | ExportResolved export_job string download
  | ExportRejected export_job export_error
  | CloseDialogTimeout

fun apply_event :: "string \<Rightarrow> editor_state \<Rightarrow> editor_event \<Rightarrow> editor_state" where
  "apply_event B s (LoadProject pr sr) = loadProject B pr sr s"
| "apply_event B s (EditScene sc) = handleEditScene sc s"
| "apply_event B s (ChangeEditText str) = s\<lparr>editText := str\<rparr>"
| "apply_event B s CancelEdit = s\<lparr>editingScene := None\<rparr>"
| "apply_event B s (SaveScene sid res) = handleSaveScene B sid res s"
| "apply_event B s (PlayAudio path) = playAudio B path s"
| "apply_event B s AudioEnded = audio_onended s"
| "apply_event B s AudioError = audio_onerror s"
| "apply_event B s AudioPlayRejected = audio_play_catch s"
| "apply_event B s OpenExportDialog = s\<lparr>showExportDialog := True\<rparr>"
| "apply_event B s CloseExportDialog = s\<lparr>showExportDialog := False\<rparr>"
| "apply_event B s (ChooseFormat fmt) = s\<lparr>exportFormat := fmt\<rparr>"
| "apply_event B s ExportStart = snd (handleExport_start B s)"
| "apply_event B s (IntervalFires job) = interval_fires job s"
| "apply_event B s (ExportResolved job url dl) = handleExport_resolved B job url dl s"
| "apply_event B s (ExportRejected job err) = handleExport_rejected job err s"
| "apply_event B s CloseDialogTimeout = close_dialog_timeout s"

definition run :: "string \<Rightarrow> string \<Rightarrow> editor_event list \<Rightarrow> editor_state" where
  "run B pid evs = foldl (apply_event B) (EditorPage_init pid) evs"

text \<open>
  Events that do not write the export progress. The others are the start of an export,
  an interval callback, the settling of an export request, and the 1500 ms timeout with
  which a finished export closes the dialog.
\<close>

fun quiet :: "editor_event \<Rightarrow> bool" where
  "quiet ExportStart = False"
| "quiet (IntervalFires _) = False"
| "quiet (ExportResolved _ _ _) = False"
| "quiet (ExportRejected _ _) = False"
| "quiet CloseDialogTimeout = False"
| "quiet _ = True"

text \<open>
  An export started in state \<open>s\<close> whose request is still pending: for each list of
  \<open>evss\<close> in turn, the events of that list happen and then the interval of the export
  fires once.
\<close>

definition pending :: "string \<Rightarrow> editor_state \<Rightarrow> editor_event list list \<Rightarrow> editor_state" where
  "pending B s evss =
     foldl (\<lambda>st evs. interval_fires (fst (handleExport_start B s)) (foldl (apply_event B) st evs))
       (snd (handleExport_start B s)) evss"

text \<open>The elements in a playing state, and the single-flight invariant.\<close>

definition playing :: "editor_state \<Rightarrow> nat list" where
  "playing s = filter (\<lambda>i. \<not> paused (audios s ! i)) [0..<length (audios s)]"

definition tracked_only :: "editor_state \<Rightarrow> bool" where
  "tracked_only s =
     ((case currentAudio s of None \<Rightarrow> True | Some a \<Rightarrow> a < length (audios s)) \<and>
      list_all (\<lambda>i. currentAudio s = Some i) (playing s))"


section \<open>Example data\<close>

definition mp3 :: File where
  "mp3 = \<lparr>file_name = ''a.mp3'', file_type = ''audio/mpeg''\<rparr>"

definition mp4 :: File where
  "mp4 = \<lparr>file_name = ''clip.mp4'', file_type = ''video/mp4''\<rparr>"

definition analysis_ok :: "string \<Rightarrow> unit outcome" where
  "analysis_ok url = Resolved ()"

definition analysis_fails :: "string \<Rightarrow> unit outcome" where
  "analysis_fails url = Rejected"

definition scene1 :: scene where
  "scene1 = \<lparr>scene_id = ''s1'', timestamp = 1 / 2, description = ''A door opens'',
             thumbnail_path = ''/data/p1/thumb_0.jpg'', audio_path = ''/data/p1/audio_0.mp3''\<rparr>"

definition scene2 :: scene where
  "scene2 = \<lparr>scene_id = ''s2'', timestamp = 21 / 5, description = ''A man walks in'',
             thumbnail_path = ''/data/p1/thumb_1.jpg'', audio_path = ''/data/p1/audio_1.mp3''\<rparr>"

definition project1 :: project where
  "project1 = \<lparr>project_id = ''p1'', original_filename = ''clip.mp4''\<rparr>"

definition loaded :: editor_state where
  "loaded = loadProject ''http://h'' (Resolved project1) (Resolved [scene1, scene2])
              (EditorPage_init ''p1'')"

definition first_playing :: editor_state where
  "first_playing =
     run ''http://h'' ''p1''
       [LoadProject (Resolved project1) (Resolved [scene1, scene2]),
        PlayAudio (audio_path scene1)]"

definition export_ready :: editor_state where
  "export_ready =
     run ''http://h'' ''p1''
       [LoadProject (Resolved project1) (Resolved [scene1]), OpenExportDialog]"

definition first_export_done :: editor_state where
  "first_export_done =
     handleExport_resolved ''http://h'' (fst (handleExport_start ''http://h'' export_ready))
       ''/api/download/p1'' Blob (snd (handleExport_start ''http://h'' export_ready))"

section \<open>Properties of the upload screen\<close>

lemma select_first_video: "video_selection s \<Longrightarrow> video_selection (fst (select_first fs s))"
  by (auto simp: select_first_def video_selection_def split: option.splits list.splits)

lemma select_first_trace: "list_all carries_video (snd (select_first fs s))"
  by (auto simp: select_first_def split: option.splits list.splits)

lemma handleDrop_video:
  "video_selection s \<Longrightarrow>
   video_selection (fst (handleDrop e s)) \<and> list_all carries_video (snd (handleDrop e s))"
proof -
  assume v: "video_selection s"
  then have v': "video_selection (s\<lparr>dragActive := False\<rparr>)"
    by (simp add: video_selection_def)
  show ?thesis
    using select_first_video [OF v', of "event_files e"]
          select_first_trace [of "event_files e" "s\<lparr>dragActive := False\<rparr>"]
    by (simp add: handleDrop_def case_prod_unfold Let_def)
qed

lemma handleUpload_video:
  "video_selection s \<Longrightarrow>
   video_selection (fst (handleUpload B up an s)) \<and>
   list_all carries_video (snd (handleUpload B up an s))"
  by (auto simp: handleUpload_def Let_def upload_failed_def video_selection_def
           split: option.splits outcome.splits)

lemma handleDrag_video:
  "video_selection s \<Longrightarrow>
   video_selection (fst (handleDrag e s)) \<and> list_all carries_video (snd (handleDrag e s))"
  by (simp add: handleDrag_def video_selection_def)

lemma home_step_video:
  "video_selection s \<Longrightarrow>
   video_selection (fst (home_step B s ev)) \<and> list_all carries_video (snd (home_step B s ev))"
  by (cases ev)
     (simp_all add: handleDrag_video handleDrop_video handleUpload_video handleFileSelect_def
        select_first_video select_first_trace)

lemma home_run_video:
  "video_selection (fst st) \<Longrightarrow> list_all carries_video (snd st) \<Longrightarrow>
   video_selection (fst (home_run B st evs)) \<and> list_all carries_video (snd (home_run B st evs))"
proof (induction evs arbitrary: st)
  case Nil
  then show ?case by simp
next
  case (Cons ev evs)
  obtain s tr where st: "st = (s, tr)" by (cases st)
  obtain s' tr' where step: "home_step B s ev = (s', tr')" by (cases "home_step B s ev")
  from Cons.prems st have "video_selection s" "list_all carries_video tr" by simp_all
  with home_step_video [of s B ev] step
  have "video_selection s'" "list_all carries_video (tr @ tr')" by simp_all
  with Cons.IH [of "(s', tr @ tr')"] st step show ?case by simp
qed

lemma select_first_rejects:
  "fs = Some (f # rest) \<Longrightarrow> \<not> startsWith (file_type f) ''video/'' \<Longrightarrow>
   select_first fs s = (s, [ToastError ''Please upload a video file''])"
  by (simp add: select_first_def)

lemma handleUpload_trace:
  "selectedFile s = Some f \<Longrightarrow>
   snd (handleUpload B up an s) =
     HttpPost (API B @ ''/upload'') (FormData f) #
     (case up of
        Rejected \<Rightarrow> upload_failed
      | Resolved pid \<Rightarrow>
          [ToastSuccess ''Video uploaded successfully!'',
           ToastInfo ''Analyzing video for scene cuts...'',
           HttpPost (API B @ ''/analyze/'' @ pid) NoBody] @
          (case an (API B @ ''/analyze/'' @ pid) of
             Rejected \<Rightarrow> upload_failed
           | Resolved _ \<Rightarrow> [ToastSuccess ''Analysis complete!'', Navigate (''/editor/'' @ pid)]))"
  by (simp add: handleUpload_def Let_def split: outcome.splits)

text \<open>
  Claim C4, as amended. The handlers read \<open>files[0]\<close> only. When the first file of a drop
  or of a file choice has a type that does not start with \<open>video/\<close>, both handlers
  show the error toast \<open>Please upload a video file\<close>, issue no request and leave the
  selection unchanged. Moreover, in every run of the upload screen, every request that
  carries a file carries one whose type starts with \<open>video/\<close>: no other file is ever
  sent, whether it was rejected or, as a later file of a drop, never read.
\<close>
theorem non_video_rejected_without_request:
  "(event_files e = Some (f # rest) \<and> \<not> startsWith (file_type f) ''video/'' \<longrightarrow>
      filter is_toast_error (snd (handleDrop e s)) = [ToastError ''Please upload a video file''] \<and>
      filter is_toast_error (snd (handleFileSelect e s)) = [ToastError ''Please upload a video file''] \<and>
      requests (snd (handleDrop e s)) = [] \<and>
      requests (snd (handleFileSelect e s)) = [] \<and>
      selectedFile (fst (handleDrop e s)) = selectedFile s \<and>
      selectedFile (fst (handleFileSelect e s)) = selectedFile s) \<and>
   list_all carries_video (snd (home_run B (HomePage_init, []) evs))"
proof -
  have "video_selection (fst (HomePage_init, []))"
       "list_all carries_video (snd (HomePage_init, []))"
    by (simp_all add: video_selection_def HomePage_init_def)
  from home_run_video [OF this]
  have run: "list_all carries_video (snd (home_run B (HomePage_init, []) evs))"
    by simp
  show ?thesis
    using run
    by (auto simp: handleDrop_def handleFileSelect_def select_first_rejects requests_def)
qed

theorem non_video_rejected_without_request_witness:
  "event_files \<lparr>event_type = ''drop'', event_files = Some [mp3]\<rparr> = Some (mp3 # []) \<and>
   \<not> startsWith (file_type mp3) ''video/'' \<and>
   filter is_toast_error
     (snd (handleDrop \<lparr>event_type = ''drop'', event_files = Some [mp3]\<rparr> HomePage_init))
     = [ToastError ''Please upload a video file''] \<and>
   requests (snd (handleDrop \<lparr>event_type = ''drop'', event_files = Some [mp3]\<rparr> HomePage_init)) = [] \<and>
   list_all carries_video
     (snd (home_run ''http://h'' (HomePage_init, [])
        [Drop \<lparr>event_type = ''drop'', event_files = Some [mp4]\<rparr>,
         FileSelect \<lparr>event_type = ''change'', event_files = Some [mp3]\<rparr>,
         Upload (Resolved ''p1'') analysis_ok]))"
  using non_video_rejected_without_request
    [of "\<lparr>event_type = ''drop'', event_files = Some [mp3]\<rparr>" mp3 "[]" HomePage_init
        "''http://h''"
        "[Drop \<lparr>event_type = ''drop'', event_files = Some [mp4]\<rparr>,
          FileSelect \<lparr>event_type = ''change'', event_files = Some [mp3]\<rparr>,
          Upload (Resolved ''p1'') analysis_ok]"]
  by (simp add: mp3_def startsWith_def)

text \<open>
  The claim as stated (every dropped file that is not a video is rejected with a visible
  error) fails for a file after the first: dropping a video together with an audio
  file selects the video and shows no error for the audio file.
\<close>
theorem later_file_dropped_without_error:
  "\<not> startsWith (file_type mp3) ''video/'' \<and>
   snd (handleDrop \<lparr>event_type = ''drop'', event_files = Some [mp4, mp3]\<rparr> HomePage_init) =
     [PreventDefault, StopPropagation] \<and>
   filter is_toast_error
     (snd (handleDrop \<lparr>event_type = ''drop'', event_files = Some [mp4, mp3]\<rparr> HomePage_init)) = [] \<and>
   selectedFile
     (fst (handleDrop \<lparr>event_type = ''drop'', event_files = Some [mp4, mp3]\<rparr> HomePage_init)) =
     Some mp4"
  by (simp add: handleDrop_def select_first_def startsWith_def mp3_def mp4_def HomePage_init_def)

text \<open>
  Claim C5. When \<open>POST /upload\<close> returns a project id, the requests of \<open>handleUpload\<close>
  are the upload followed by exactly one \<open>POST /analyze/{id}\<close> for that id. A navigation
  occurs only if both requests succeeded; it is then the last effect, it goes to the
  editor of that id, it comes after the analysis request, which comes after the
  upload, and it is the only navigation. When both succeed the navigation does occur.
\<close>
theorem upload_then_one_analysis_then_navigate:
  assumes "selectedFile s = Some f"
  shows "(up = Resolved pid \<longrightarrow>
            requests (snd (handleUpload B up an s)) =
              [HttpPost (API B @ ''/upload'') (FormData f),
               HttpPost (API B @ ''/analyze/'' @ pid) NoBody]) \<and>
         (Navigate u \<in> set (snd (handleUpload B up an s)) \<longrightarrow>
            (\<exists>p. up = Resolved p \<and> an (API B @ ''/analyze/'' @ p) = Resolved () \<and>
                 u = ''/editor/'' @ p \<and>
                 occurs_before (HttpPost (API B @ ''/upload'') (FormData f))
                               (HttpPost (API B @ ''/analyze/'' @ p) NoBody)
                               (snd (handleUpload B up an s)) \<and>
                 occurs_before (HttpPost (API B @ ''/analyze/'' @ p) NoBody) (Navigate u)
                               (snd (handleUpload B up an s)) \<and>
                 filter is_navigate (snd (handleUpload B up an s)) = [Navigate u] \<and>
                 last (snd (handleUpload B up an s)) = Navigate u)) \<and>
         (up = Resolved pid \<and> an (API B @ ''/analyze/'' @ pid) = Resolved () \<longrightarrow>
            Navigate (''/editor/'' @ pid) \<in> set (snd (handleUpload B up an s)))"
  unfolding handleUpload_trace [OF assms]
  by (cases up; cases "an (API B @ ''/analyze/'' @ pid)")
     (auto simp: requests_def upload_failed_def split: outcome.splits)

theorem upload_then_one_analysis_then_navigate_witness:
  "requests (snd (handleUpload ''http://h'' (Resolved ''p1'') analysis_ok (HomePage_init\<lparr>selectedFile := Some mp4\<rparr>))) =
     [HttpPost ''http://h/api/upload'' (FormData mp4), HttpPost ''http://h/api/analyze/p1'' NoBody] \<and>
   Navigate ''/editor/p1'' \<in> set (snd (handleUpload ''http://h'' (Resolved ''p1'') analysis_ok (HomePage_init\<lparr>selectedFile := Some mp4\<rparr>))) \<and>
   last (snd (handleUpload ''http://h'' (Resolved ''p1'') analysis_ok (HomePage_init\<lparr>selectedFile := Some mp4\<rparr>))) = Navigate ''/editor/p1''"
  using upload_then_one_analysis_then_navigate
    [of "HomePage_init\<lparr>selectedFile := Some mp4\<rparr>" mp4 "Resolved ''p1''" "''p1''" "''http://h''" analysis_ok "''/editor/p1''"]
  by (simp add: API_def analysis_ok_def HomePage_init_def)

text \<open>
  Claim C6. When the upload request or the analysis request fails, the error toast
  \<open>Failed to upload video\<close> is shown, nothing navigates, the state is the one before
  the call with \<open>uploading\<close> cleared (so the selected file is retained), and each
  request was made once: the upload alone, or the upload and one analysis request.
\<close>
theorem upload_failure_keeps_selection:
  assumes "selectedFile s = Some f"
    and "up = Rejected \<or> (\<exists>pid. up = Resolved pid \<and> an (API B @ ''/analyze/'' @ pid) = Rejected)"
  shows "ToastError ''Failed to upload video'' \<in> set (snd (handleUpload B up an s)) \<and>
         filter is_navigate (snd (handleUpload B up an s)) = [] \<and>
         fst (handleUpload B up an s) = s\<lparr>uploading := False\<rparr> \<and>
         selectedFile (fst (handleUpload B up an s)) = Some f \<and>
         requests (snd (handleUpload B up an s)) =
           (case up of
              Rejected \<Rightarrow> [HttpPost (API B @ ''/upload'') (FormData f)]
            | Resolved pid \<Rightarrow> [HttpPost (API B @ ''/upload'') (FormData f),
                               HttpPost (API B @ ''/analyze/'' @ pid) NoBody])"
proof -
  have st: "fst (handleUpload B up an s) = s\<lparr>uploading := False\<rparr>"
    using assms(1) by (simp add: handleUpload_def Let_def)
  show ?thesis
    unfolding st handleUpload_trace [OF assms(1)]
    using assms by (auto simp: requests_def upload_failed_def)
qed

theorem upload_failure_keeps_selection_witness:
  "ToastError ''Failed to upload video'' \<in> set (snd (handleUpload ''http://h'' (Resolved ''p1'') analysis_fails (HomePage_init\<lparr>selectedFile := Some mp4\<rparr>))) \<and>
   filter is_navigate (snd (handleUpload ''http://h'' (Resolved ''p1'') analysis_fails (HomePage_init\<lparr>selectedFile := Some mp4\<rparr>))) = [] \<and>
   selectedFile (fst (handleUpload ''http://h'' (Resolved ''p1'') analysis_fails (HomePage_init\<lparr>selectedFile := Some mp4\<rparr>))) = Some mp4 \<and>
   requests (snd (handleUpload ''http://h'' (Resolved ''p1'') analysis_fails (HomePage_init\<lparr>selectedFile := Some mp4\<rparr>))) =
     [HttpPost ''http://h/api/upload'' (FormData mp4), HttpPost ''http://h/api/analyze/p1'' NoBody]"
  using upload_failure_keeps_selection
    [of "HomePage_init\<lparr>selectedFile := Some mp4\<rparr>" mp4 "Resolved ''p1''" analysis_fails "''http://h''"]
  by (simp add: API_def analysis_fails_def HomePage_init_def)

text \<open>
  Claim C10. With a file already selected, dropping or choosing a file whose type does
  not start with \<open>video/\<close> leaves the selection as it was, and a following
  \<open>handleUpload\<close> behaves as it would have before the rejection: its first effect is
  the upload request carrying the previously selected file.
\<close>
theorem rejection_keeps_previous_selection:
  assumes "selectedFile s = Some v"
    and "event_files e = Some (f # rest)"
    and "\<not> startsWith (file_type f) ''video/''"
  shows "selectedFile (fst (handleDrop e s)) = Some v \<and>
         selectedFile (fst (handleFileSelect e s)) = Some v \<and>
         snd (handleUpload B up an (fst (handleDrop e s))) = snd (handleUpload B up an s) \<and>
         snd (handleUpload B up an (fst (handleFileSelect e s))) = snd (handleUpload B up an s) \<and>
         hd (snd (handleUpload B up an (fst (handleDrop e s)))) =
           HttpPost (API B @ ''/upload'') (FormData v) \<and>
         hd (snd (handleUpload B up an (fst (handleFileSelect e s)))) =
           HttpPost (API B @ ''/upload'') (FormData v)"
proof -
  have d: "fst (handleDrop e s) = s\<lparr>dragActive := False\<rparr>"
    using assms(2,3) by (simp add: handleDrop_def select_first_rejects)
  have fs: "fst (handleFileSelect e s) = s"
    using assms(2,3) by (simp add: handleFileSelect_def select_first_rejects)
  have sel: "selectedFile (s\<lparr>dragActive := False\<rparr>) = Some v"
    using assms(1) by simp
  show ?thesis
    unfolding d fs handleUpload_trace [OF sel] handleUpload_trace [OF assms(1)]
    using assms(1) by simp
qed

theorem rejection_keeps_previous_selection_witness:
  "selectedFile (fst (handleDrop \<lparr>event_type = ''drop'', event_files = Some [mp3]\<rparr> (HomePage_init\<lparr>selectedFile := Some mp4\<rparr>))) = Some mp4 \<and>
   hd (snd (handleUpload ''http://h'' (Resolved ''p1'') analysis_ok
        (fst (handleDrop \<lparr>event_type = ''drop'', event_files = Some [mp3]\<rparr> (HomePage_init\<lparr>selectedFile := Some mp4\<rparr>))))) =
     HttpPost ''http://h/api/upload'' (FormData mp4)"
  using rejection_keeps_previous_selection
    [of "HomePage_init\<lparr>selectedFile := Some mp4\<rparr>" mp4 "\<lparr>event_type = ''drop'', event_files = Some [mp3]\<rparr>" mp3 "[]"
        "''http://h''" "Resolved ''p1''" analysis_ok]
  by (simp add: API_def mp3_def startsWith_def HomePage_init_def handleDrop_def
        handleFileSelect_def select_first_def handleUpload_def analysis_ok_def)

section \<open>Properties of the editor\<close>

lemma emit_simps [simp]:
  "effects (emit e s) = effects s @ [e]"
  "scenes (emit e s) = scenes s"
  "project (emit e s) = project s"
  "loading (emit e s) = loading s"
  "editingScene (emit e s) = editingScene s"
  "editText (emit e s) = editText s"
  "currentAudio (emit e s) = currentAudio s"
  "audios (emit e s) = audios s"
  "intervals (emit e s) = intervals s"
  "next_timer (emit e s) = next_timer s"
  "exportProgress (emit e s) = exportProgress s"
  "projectId (emit e s) = projectId s"
  by (simp_all add: emit_def)

subsection \<open>Loading and saving\<close>

text \<open>
  Claim C3. At mount no scene card is rendered. After \<open>loadProject\<close>, scene cards are
  rendered only if both the project fetch and the scene list fetch resolved, and then
  they are the cards of the fetched scenes. If either fetch is rejected, the error
  toast \<open>Failed to load project\<close> is shown, loading ends, and neither the project nor
  any scene of a partial result is stored or rendered.
\<close>
theorem cards_need_both_fetches:
  "scene_cards (render (EditorPage_init pid)) = [] \<and>
   (scene_cards (render (loadProject B pr sr (EditorPage_init pid))) \<noteq> [] \<longrightarrow>
      (\<exists>p sc. pr = Resolved p \<and> sr = Resolved sc \<and>
         map card_scene (scene_cards (render (loadProject B pr sr (EditorPage_init pid)))) = sc)) \<and>
   (pr = Rejected \<or> sr = Rejected \<longrightarrow>
      ToastError ''Failed to load project'' \<in> set (effects (loadProject B pr sr (EditorPage_init pid))) \<and>
      \<not> loading (loadProject B pr sr (EditorPage_init pid)) \<and>
      project (loadProject B pr sr (EditorPage_init pid)) = None \<and>
      scenes (loadProject B pr sr (EditorPage_init pid)) = [] \<and>
      scene_cards (render (loadProject B pr sr (EditorPage_init pid))) = [])"
  by (cases pr; cases sr)
     (simp_all add: loadProject_def render_def scene_cards_def EditorPage_init_def Let_def
        comp_def case_prod_unfold)

theorem cards_need_both_fetches_witness:
  "scene_cards (render (loadProject ''http://h'' Rejected (Resolved [scene1, scene2]) (EditorPage_init ''p1''))) = [] \<and>
   ToastError ''Failed to load project'' \<in> set (effects (loadProject ''http://h'' Rejected (Resolved [scene1, scene2]) (EditorPage_init ''p1''))) \<and>
   map card_scene (scene_cards (render (loadProject ''http://h'' (Resolved project1) (Resolved [scene1, scene2]) (EditorPage_init ''p1'')))) = [scene1, scene2]"
  using cards_need_both_fetches [of "''p1''" "''http://h''" Rejected "Resolved [scene1, scene2]"]
        cards_need_both_fetches [of "''p1''" "''http://h''" "Resolved project1" "Resolved [scene1, scene2]"]
  by (simp add: loadProject_def render_def scene_cards_def EditorPage_init_def Let_def)

text \<open>
  Claim C7. When the save of scene \<open>S\<close> succeeds, the scene list keeps its length and
  the order of its ids; every entry whose id is \<open>S\<close> is the old entry with its
  description replaced by the draft text, and every other entry is the old entry
  unchanged. The text sent to the server is that same draft.
\<close>
theorem save_updates_only_that_scene:
  "length (scenes (handleSaveScene B S (Resolved ()) s)) = length (scenes s) \<and>
   map scene_id (scenes (handleSaveScene B S (Resolved ()) s)) = map scene_id (scenes s) \<and>
   (\<forall>i < length (scenes s).
      scenes (handleSaveScene B S (Resolved ()) s) ! i =
        (if scene_id (scenes s ! i) = S
         then (scenes s ! i)\<lparr>description := editText s\<rparr>
         else scenes s ! i)) \<and>
   HttpPut (API B @ ''/scenes/'' @ S) (JsonDescription (editText s))
     \<in> set (effects (handleSaveScene B S (Resolved ()) s))"
  by (simp add: handleSaveScene_def Let_def comp_def)

theorem save_updates_only_that_scene_witness:
  "scenes (handleSaveScene ''http://h'' ''s2'' (Resolved ()) (loaded\<lparr>editingScene := Some ''s2'', editText := ''A woman walks in''\<rparr>))
     = [scene1, scene2\<lparr>description := ''A woman walks in''\<rparr>]"
  using save_updates_only_that_scene [of "''http://h''" "''s2''" "loaded\<lparr>editingScene := Some ''s2'', editText := ''A woman walks in''\<rparr>"]
  by (simp add: loaded_def loadProject_def EditorPage_init_def Let_def handleSaveScene_def scene1_def scene2_def)

subsection \<open>Export progress and its timer\<close>

lemma interval_fires_intervals [simp]: "intervals (interval_fires job s) = intervals s"
  by (simp add: interval_fires_def)

lemma ticks_intervals [simp]: "intervals ((interval_fires job ^^ k) s) = intervals s"
  by (induction k) simp_all

lemma start_job:
  "progressInterval (fst (handleExport_start B s)) = next_timer s"
  "estimatedSeconds (fst (handleExport_start B s)) = estimate (length (scenes s))"
  by (simp_all add: handleExport_start_def setInterval_def Let_def)

lemma start_state:
  "intervals (snd (handleExport_start B s)) = insert (next_timer s) (intervals s)"
  "exportProgress (snd (handleExport_start B s)) = 0"
  by (simp_all add: handleExport_start_def setInterval_def Let_def)

lemma export_run_running:
  "progressInterval (fst (handleExport_start B s)) \<in> intervals (export_run B s k)"
  by (simp add: export_run_def start_job start_state)

lemma export_run_Suc:
  "exportProgress (export_run B s (Suc k)) =
     progress_update (estimate (length (scenes s))) (exportProgress (export_run B s k))"
  using export_run_running [of B s k]
  by (simp add: export_run_def interval_fires_def start_job)

lemma resolved_fields:
  "intervals (handleExport_resolved B job url dl s) = intervals s - {progressInterval job}"
  "exportProgress (handleExport_resolved B job url dl s) = 100"
  by (cases dl; simp add: handleExport_resolved_def clearInterval_def Let_def)+

lemma rejected_fields:
  "intervals (handleExport_rejected job err s) = intervals s - {progressInterval job}"
  "exportProgress (handleExport_rejected job err s) = 0"
  by (simp_all add: handleExport_rejected_def clearInterval_def Let_def)



lemma estimate_pos: "5 \<le> estimate n"
  by (simp add: estimate_def)

lemma progress_update_step:
  assumes "5 \<le> est" and "0 \<le> p" and "p \<le> 95"
  shows "p \<le> progress_update est p" and "progress_update est p \<le> 95"
    and "p < 95 \<Longrightarrow> p < progress_update est p"
    and "p = 95 \<Longrightarrow> progress_update est p = 95"
proof -
  have e: "5 \<le> real est" using assms(1) by simp
  then have pos: "0 < 85 / (real est * 2)" by simp
  have "85 / (real est * 2) \<le> 85 / (5 * 2)"
    using e by (intro divide_left_mono) simp_all
  then have le: "85 / (real est * 2) \<le> 17 / 2" by simp
  show "p \<le> progress_update est p"
    using pos assms by (simp add: progress_update_def)
  show "progress_update est p \<le> 95"
    using le assms by (simp add: progress_update_def)
  show "p < 95 \<Longrightarrow> p < progress_update est p"
    using pos by (simp add: progress_update_def)
  show "p = 95 \<Longrightarrow> progress_update est p = 95"
    by (simp add: progress_update_def)
qed

lemma export_run_bounds:
  "0 \<le> exportProgress (export_run B s k) \<and> exportProgress (export_run B s k) \<le> 95"
proof (induction k)
  case 0
  show ?case by (simp add: export_run_def start_state)
next
  case (Suc k)
  with progress_update_step(1,2) [OF estimate_pos, of "exportProgress (export_run B s k)" "length (scenes s)"]
  show ?case by (simp add: export_run_Suc)
qed

lemma export_ready_scenes: "length (scenes export_ready) = 1"
  by (simp add: export_ready_def run_def loadProject_def EditorPage_init_def)

lemma export_ready_20: "exportProgress (export_run ''http://h'' export_ready 20) = 95"
  apply (simp add: eval_nat_numeral export_run_Suc export_ready_scenes)
  apply (simp add: export_run_def start_state progress_update_def estimate_def)
  done

subsection \<open>Audio playback\<close>

lemma audio_pause_simps [simp]:
  "audios (audio_pause a s) = (audios s)[a := (audios s ! a)\<lparr>paused := True\<rparr>]"
  "currentAudio (audio_pause a s) = currentAudio s"
  "effects (audio_pause a s) = effects s @ [AudioPause a]"
  by (simp_all add: audio_pause_def)

lemma audio_set_currentTime_simps [simp]:
  "audios (audio_set_currentTime a t s) = (audios s)[a := (audios s ! a)\<lparr>currentTime := t\<rparr>]"
  "currentAudio (audio_set_currentTime a t s) = currentAudio s"
  "effects (audio_set_currentTime a t s) = effects s @ [AudioSetCurrentTime a t]"
  by (simp_all add: audio_set_currentTime_def)

lemma audio_play_simps [simp]:
  "audios (audio_play a s) = (audios s)[a := (audios s ! a)\<lparr>paused := False\<rparr>]"
  "currentAudio (audio_play a s) = currentAudio s"
  "effects (audio_play a s) = effects s @ [AudioPlay a]"
  by (simp_all add: audio_play_def)

lemma new_Audio_simps [simp]:
  "fst (new_Audio url s) = length (audios s)"
  "audios (snd (new_Audio url s)) = audios s @ [\<lparr>src = url, paused = True, currentTime = 0\<rparr>]"
  "currentAudio (snd (new_Audio url s)) = currentAudio s"
  "effects (snd (new_Audio url s)) = effects s @ [AudioNew (length (audios s)) url]"
  by (simp_all add: new_Audio_def)

lemma tracked_only_iff:
  "tracked_only s \<longleftrightarrow>
     (\<forall>a. currentAudio s = Some a \<longrightarrow> a < length (audios s)) \<and>
     (\<forall>i < length (audios s). \<not> paused (audios s ! i) \<longrightarrow> currentAudio s = Some i)"
  by (auto simp: tracked_only_def playing_def list_all_iff split: option.splits)

lemma filter_eq_upt: "filter (\<lambda>i. i = a) [0..<n] = (if a < n then [a] else [])"
  by (induction n) auto

lemma playing_tracked:
  assumes "tracked_only s"
  shows "playing s =
     (case currentAudio s of
        None \<Rightarrow> []
      | Some a \<Rightarrow> if paused (audios s ! a) then [] else [a])"
proof (cases "currentAudio s")
  case None
  with assms show ?thesis
    by (auto simp: tracked_only_iff playing_def filter_empty_conv)
next
  case (Some a)
  with assms have a: "a < length (audios s)"
    and only: "\<And>i. i < length (audios s) \<Longrightarrow> \<not> paused (audios s ! i) \<Longrightarrow> i = a"
    by (auto simp: tracked_only_iff)
  have "playing s = filter (\<lambda>i. i = a \<and> \<not> paused (audios s ! a)) [0..<length (audios s)]"
    unfolding playing_def by (rule filter_cong) (auto dest: only)
  also have "\<dots> = (if paused (audios s ! a) then [] else [a])"
    using a by (simp add: filter_eq_upt)
  finally show ?thesis using Some by simp
qed



lemma setCurrentAudio_same: "currentAudio s = v \<Longrightarrow> setCurrentAudio v s = s"
  by (simp add: setCurrentAudio_def)

lemma setCurrentAudio_changed:
  "currentAudio s \<noteq> v \<Longrightarrow>
   setCurrentAudio v s =
     (case currentAudio s of None \<Rightarrow> s | Some old \<Rightarrow> audio_pause old s)\<lparr>currentAudio := v\<rparr>"
  by (simp add: setCurrentAudio_def)

lemma setCurrentAudio_currentAudio [simp]: "currentAudio (setCurrentAudio v s) = v"
  by (cases "currentAudio s = v") (simp_all add: setCurrentAudio_same setCurrentAudio_changed)


lemma setCurrentAudio_length [simp]:
  "length (audios (setCurrentAudio v s)) = length (audios s)"
  by (cases "currentAudio s = v"; cases "currentAudio s")
     (simp_all add: setCurrentAudio_same setCurrentAudio_changed)

lemma setCurrentAudio_effects:
  "effects (setCurrentAudio v s) =
     effects s @ (case currentAudio s of
                    None \<Rightarrow> []
                  | Some old \<Rightarrow> if v = Some old then [] else [AudioPause old])"
  by (cases "currentAudio s = v"; cases "currentAudio s")
     (auto simp add: setCurrentAudio_same setCurrentAudio_changed)

lemma setCurrentAudio_paused:
  assumes "i < length (audios s)"
  shows "paused (audios (setCurrentAudio v s) ! i) =
     (paused (audios s ! i) \<or> (currentAudio s = Some i \<and> v \<noteq> Some i))"
proof (cases "currentAudio s = v")
  case True
  then show ?thesis by (auto simp add: setCurrentAudio_same)
next
  case False
  show ?thesis
  proof (cases "currentAudio s")
    case None
    with False show ?thesis by (simp add: setCurrentAudio_changed)
  next
    case (Some old)
    with False assms show ?thesis
      by (cases "i = old") (auto simp add: setCurrentAudio_changed)
  qed
qed

lemma setCurrentAudio_currentTime:
  assumes "i < length (audios s)"
  shows "currentTime (audios (setCurrentAudio v s) ! i) = currentTime (audios s ! i)"
proof (cases "currentAudio s = v")
  case True
  then show ?thesis by (simp add: setCurrentAudio_same)
next
  case False
  show ?thesis
  proof (cases "currentAudio s")
    case None
    with False show ?thesis by (simp add: setCurrentAudio_changed)
  next
    case (Some old)
    with False assms show ?thesis
      by (cases "i = old") (simp_all add: setCurrentAudio_changed)
  qed
qed

lemma tracked_onlyD:
  assumes "tracked_only s"
  shows "currentAudio s = Some a \<Longrightarrow> a < length (audios s)"
    and "i < length (audios s) \<Longrightarrow> \<not> paused (audios s ! i) \<Longrightarrow> currentAudio s = Some i"
  using assms unfolding tracked_only_iff by blast+

lemma tracked_onlyI:
  assumes "\<And>a. currentAudio s = Some a \<Longrightarrow> a < length (audios s)"
    and "\<And>i. i < length (audios s) \<Longrightarrow> \<not> paused (audios s ! i) \<Longrightarrow> currentAudio s = Some i"
  shows "tracked_only s"
  unfolding tracked_only_iff using assms by blast

lemma setCurrentAudio_None_tracked:
  assumes "tracked_only s"
  shows "tracked_only (setCurrentAudio None s)"
proof (rule tracked_onlyI)
  fix a assume "currentAudio (setCurrentAudio None s) = Some a"
  then show "a < length (audios (setCurrentAudio None s))" by simp
next
  fix i assume i: "i < length (audios (setCurrentAudio None s))"
    and np: "\<not> paused (audios (setCurrentAudio None s) ! i)"
  from i have i': "i < length (audios s)" by simp
  from np have "\<not> paused (audios s ! i)" and "currentAudio s \<noteq> Some i"
    unfolding setCurrentAudio_paused [OF i'] by blast+
  with tracked_onlyD(2) [OF assms i'] have False by blast
  then show "currentAudio (setCurrentAudio None s) = Some i" ..
qed


lemma playAudio_unfold:
  "playAudio B path s =
     setCurrentAudio (Some (length (audios s)))
       (audio_play (length (audios s))
          (snd (new_Audio (API B @ ''/audio/'' @ projectId s @ ''/'' @ pop (split path CHR ''/''))
             (case currentAudio s of
                None \<Rightarrow> s
              | Some cur \<Rightarrow> audio_set_currentTime cur 0 (audio_pause cur s)))))"
  by (cases "currentAudio s")
     (simp_all add: playAudio_def Let_def case_prod_unfold audio_set_currentTime_def
        audio_pause_def)

lemma playAudio_currentAudio [simp]:
  "currentAudio (playAudio B path s) = Some (length (audios s))"
  by (simp add: playAudio_unfold)

lemma playAudio_length [simp]:
  "length (audios (playAudio B path s)) = Suc (length (audios s))"
  by (cases "currentAudio s") (simp_all add: playAudio_unfold)

lemma playAudio_paused_old:
  assumes "i < length (audios s)"
  shows "paused (audios (playAudio B path s) ! i) =
           (paused (audios s ! i) \<or> currentAudio s = Some i)"
proof (cases "currentAudio s")
  case None
  with assms show ?thesis
    by (simp add: playAudio_unfold setCurrentAudio_paused nth_append)
next
  case (Some cur)
  with assms show ?thesis
    by (cases "i = cur")
       (auto simp add: playAudio_unfold setCurrentAudio_paused nth_append nth_list_update)
qed

lemma playAudio_paused_new:
  assumes "currentAudio s \<noteq> Some (length (audios s))"
  shows "\<not> paused (audios (playAudio B path s) ! length (audios s))"
proof (cases "currentAudio s")
  case None
  then show ?thesis
    by (simp add: playAudio_unfold setCurrentAudio_paused)
next
  case (Some cur)
  with assms have "cur \<noteq> length (audios s)" by simp
  with Some show ?thesis
    by (simp add: playAudio_unfold setCurrentAudio_paused)
qed

lemma playAudio_currentTime_old:
  assumes "currentAudio s = Some cur" and "cur < length (audios s)"
  shows "currentTime (audios (playAudio B path s) ! cur) = 0"
  using assms
  by (simp add: playAudio_unfold setCurrentAudio_currentTime nth_append)

lemma playAudio_effects:
  "effects (playAudio B path s) =
     effects s @
     (case currentAudio s of
        None \<Rightarrow> []
      | Some cur \<Rightarrow> [AudioPause cur, AudioSetCurrentTime cur 0]) @
     [AudioNew (length (audios s))
        (API B @ ''/audio/'' @ projectId s @ ''/'' @ pop (split path CHR ''/'')),
      AudioPlay (length (audios s))] @
     (case currentAudio s of
        None \<Rightarrow> []
      | Some cur \<Rightarrow> if cur = length (audios s) then [] else [AudioPause cur])"
  by (cases "currentAudio s") (auto simp add: playAudio_unfold setCurrentAudio_effects)

lemma playAudio_tracked:
  assumes "tracked_only s"
  shows "tracked_only (playAudio B path s)"
proof (rule tracked_onlyI)
  fix a assume "currentAudio (playAudio B path s) = Some a"
  then show "a < length (audios (playAudio B path s))" by simp
next
  fix i assume i: "i < length (audios (playAudio B path s))"
    and np: "\<not> paused (audios (playAudio B path s) ! i)"
  have "i = length (audios s)"
  proof (rule ccontr)
    assume "i \<noteq> length (audios s)"
    with i have i': "i < length (audios s)" by simp
    from np have "\<not> paused (audios s ! i)" and "currentAudio s \<noteq> Some i"
      unfolding playAudio_paused_old [OF i'] by blast+
    with tracked_onlyD(2) [OF assms i'] show False by blast
  qed
  then show "currentAudio (playAudio B path s) = Some i" by simp
qed


lemma handleEditScene_unfold:
  "handleEditScene sc s =
     (case currentAudio s of
        None \<Rightarrow> s
      | Some cur \<Rightarrow> setCurrentAudio None (audio_set_currentTime cur 0 (audio_pause cur s)))
     \<lparr>editingScene := Some (scene_id sc), editText := description sc\<rparr>"
  by (simp add: handleEditScene_def Let_def)

lemma handleEditScene_fields [simp]:
  "currentAudio (handleEditScene sc s) = None"
  "editingScene (handleEditScene sc s) = Some (scene_id sc)"
  "editText (handleEditScene sc s) = description sc"
  "length (audios (handleEditScene sc s)) = length (audios s)"
  by (cases "currentAudio s"; simp add: handleEditScene_unfold)+

lemma handleEditScene_paused:
  assumes "i < length (audios s)"
  shows "paused (audios (handleEditScene sc s) ! i) =
           (paused (audios s ! i) \<or> currentAudio s = Some i)"
proof (cases "currentAudio s")
  case None
  then show ?thesis by (simp add: handleEditScene_unfold)
next
  case (Some cur)
  with assms show ?thesis
    by (cases "i = cur") (auto simp add: handleEditScene_unfold setCurrentAudio_paused)
qed

lemma handleEditScene_currentTime:
  assumes "currentAudio s = Some cur" and "cur < length (audios s)"
  shows "currentTime (audios (handleEditScene sc s) ! cur) = 0"
  using assms by (simp add: handleEditScene_unfold setCurrentAudio_currentTime)

lemma handleEditScene_effects:
  "effects (handleEditScene sc s) =
     effects s @
     (case currentAudio s of
        None \<Rightarrow> []
      | Some cur \<Rightarrow> [AudioPause cur, AudioSetCurrentTime cur 0, AudioPause cur])"
  by (cases "currentAudio s") (simp_all add: handleEditScene_unfold setCurrentAudio_effects)

lemma handleEditScene_tracked:
  assumes "tracked_only s"
  shows "tracked_only (handleEditScene sc s)"
proof (rule tracked_onlyI)
  fix a assume "currentAudio (handleEditScene sc s) = Some a"
  then show "a < length (audios (handleEditScene sc s))" by simp
next
  fix i assume i: "i < length (audios (handleEditScene sc s))"
    and np: "\<not> paused (audios (handleEditScene sc s) ! i)"
  from i have i': "i < length (audios s)" by simp
  from np have "\<not> paused (audios s ! i)" and "currentAudio s \<noteq> Some i"
    unfolding handleEditScene_paused [OF i'] by blast+
  with tracked_onlyD(2) [OF assms i'] have False by blast
  then show "currentAudio (handleEditScene sc s) = Some i" ..
qed

lemma loadProject_audio [simp]:
  "audios (loadProject B pr sr s) = audios s"
  "currentAudio (loadProject B pr sr s) = currentAudio s"
  by (cases pr; cases sr; simp add: loadProject_def Let_def)+

lemma handleSaveScene_audio [simp]:
  "audios (handleSaveScene B sid res s) = audios s"
  "currentAudio (handleSaveScene B sid res s) = currentAudio s"
  by (cases res; simp add: handleSaveScene_def Let_def)+

lemma handleExport_start_audio [simp]:
  "audios (snd (handleExport_start B s)) = audios s"
  "currentAudio (snd (handleExport_start B s)) = currentAudio s"
  by (simp_all add: handleExport_start_def setInterval_def Let_def)

lemma interval_fires_audio [simp]:
  "audios (interval_fires job s) = audios s"
  "currentAudio (interval_fires job s) = currentAudio s"
  by (simp_all add: interval_fires_def)

lemma handleExport_resolved_audio [simp]:
  "audios (handleExport_resolved B job url dl s) = audios s"
  "currentAudio (handleExport_resolved B job url dl s) = currentAudio s"
  by (cases dl; simp add: handleExport_resolved_def clearInterval_def Let_def)+

lemma handleExport_rejected_audio [simp]:
  "audios (handleExport_rejected job err s) = audios s"
  "currentAudio (handleExport_rejected job err s) = currentAudio s"
  by (simp_all add: handleExport_rejected_def clearInterval_def Let_def)

lemma tracked_only_cong:
  "audios s' = audios s \<Longrightarrow> currentAudio s' = currentAudio s \<Longrightarrow>
   tracked_only s' = tracked_only s"
  by (simp add: tracked_only_iff)

lemma tracked_only_frame:
  "tracked_only s \<Longrightarrow> audios s' = audios s \<Longrightarrow> currentAudio s' = currentAudio s \<Longrightarrow>
   tracked_only s'"
  using tracked_only_cong [of s' s] by blast

lemma apply_event_tracked:
  assumes "tracked_only s"
  shows "tracked_only (apply_event B s ev)"
proof (cases ev)
  case (EditScene sc)
  with assms show ?thesis by (simp add: handleEditScene_tracked)
next
  case (PlayAudio path)
  with assms show ?thesis by (simp add: playAudio_tracked)
next
  case AudioEnded
  with assms show ?thesis by (simp add: audio_onended_def setCurrentAudio_None_tracked)
next
  case AudioError
  have "tracked_only (emit (ToastError ''Failed to play audio'') s)"
    by (rule tracked_only_frame [OF assms]) simp_all
  with AudioError show ?thesis by (simp add: audio_onerror_def setCurrentAudio_None_tracked)
next
  case AudioPlayRejected
  have "tracked_only (emit (ToastError ''Failed to play audio'')
                        (emit (ConsoleError ''Audio play error:'') s))"
    by (rule tracked_only_frame [OF assms]) simp_all
  with AudioPlayRejected show ?thesis
    by (simp add: audio_play_catch_def setCurrentAudio_None_tracked)
next
  case (LoadProject pr sr)
  show ?thesis unfolding LoadProject apply_event.simps
    by (rule tracked_only_frame [OF assms]) simp_all
next
  case (ChangeEditText str)
  show ?thesis unfolding ChangeEditText apply_event.simps
    by (rule tracked_only_frame [OF assms]) simp_all
next
  case CancelEdit
  show ?thesis unfolding CancelEdit apply_event.simps
    by (rule tracked_only_frame [OF assms]) simp_all
next
  case (SaveScene sid res)
  show ?thesis unfolding SaveScene apply_event.simps
    by (rule tracked_only_frame [OF assms]) simp_all
next
  case OpenExportDialog
  show ?thesis unfolding OpenExportDialog apply_event.simps
    by (rule tracked_only_frame [OF assms]) simp_all
next
  case CloseExportDialog
  show ?thesis unfolding CloseExportDialog apply_event.simps
    by (rule tracked_only_frame [OF assms]) simp_all
next
  case (ChooseFormat fmt)
  show ?thesis unfolding ChooseFormat apply_event.simps
    by (rule tracked_only_frame [OF assms]) simp_all
next
  case ExportStart
  show ?thesis unfolding ExportStart apply_event.simps
    by (rule tracked_only_frame [OF assms]) simp_all
next
  case (IntervalFires job)
  show ?thesis unfolding IntervalFires apply_event.simps
    by (rule tracked_only_frame [OF assms]) simp_all
next
  case (ExportResolved job url dl)
  show ?thesis unfolding ExportResolved apply_event.simps
    by (rule tracked_only_frame [OF assms]) simp_all
next
  case (ExportRejected job err)
  show ?thesis unfolding ExportRejected apply_event.simps
    by (rule tracked_only_frame [OF assms]) simp_all
next
  case CloseDialogTimeout
  show ?thesis unfolding CloseDialogTimeout apply_event.simps
    by (rule tracked_only_frame [OF assms]) (simp_all add: close_dialog_timeout_def)
qed

lemma foldl_tracked:
  "tracked_only s \<Longrightarrow> tracked_only (foldl (apply_event B) s evs)"
  by (induction evs arbitrary: s) (simp_all add: apply_event_tracked)

lemma run_tracked: "tracked_only (run B pid evs)"
  unfolding run_def
  by (rule foldl_tracked) (simp add: tracked_only_def EditorPage_init_def playing_def)


lemma playAudio_after_tracked:
  assumes "tracked_only s"
  shows "playing (playAudio B path s) = [length (audios s)]"
proof -
  have "currentAudio s \<noteq> Some (length (audios s))"
    using tracked_onlyD(1) [OF assms, of "length (audios s)"] by blast
  then have "\<not> paused (audios (playAudio B path s) ! length (audios s))"
    by (rule playAudio_paused_new)
  with playing_tracked [OF playAudio_tracked [OF assms, of B path]]
  show ?thesis by simp
qed

lemma playing_at_most_one:
  assumes "tracked_only s"
  shows "length (playing s) \<le> 1" and "set (playing s) \<subseteq> set_option (currentAudio s)"
  unfolding playing_tracked [OF assms]
  by (cases "currentAudio s"; simp)+

lemma playAudio_order:
  assumes "currentAudio s = Some cur" and "cur < length (audios s)"
  shows "occurs_before (AudioPause cur) (AudioPlay (length (audios s)))
           (drop (length (effects s)) (effects (playAudio B path s)))"
    and "occurs_before (AudioSetCurrentTime cur 0) (AudioPlay (length (audios s)))
           (drop (length (effects s)) (effects (playAudio B path s)))"
  using assms by (simp_all add: playAudio_effects)

text \<open>
  Claim C1. In every run of the editor at most one audio element is in a playing
  state, and an element that plays is the tracked one. When \<open>playAudio\<close> is called in
  such a state while an element is tracked, that element is paused and its position is
  set to 0, both before \<open>play()\<close> is called on the new element; afterwards the tracked
  reference is the new element, and the new element is the only one playing.
\<close>
theorem single_flight_playback:
  "length (playing (run B pid evs)) \<le> 1 \<and>
   set (playing (run B pid evs)) \<subseteq> set_option (currentAudio (run B pid evs)) \<and>
   (currentAudio (run B pid evs) = Some cur \<longrightarrow>
      occurs_before (AudioPause cur) (AudioPlay (length (audios (run B pid evs))))
        (drop (length (effects (run B pid evs)))
           (effects (playAudio B path (run B pid evs)))) \<and>
      occurs_before (AudioSetCurrentTime cur 0) (AudioPlay (length (audios (run B pid evs))))
        (drop (length (effects (run B pid evs)))
           (effects (playAudio B path (run B pid evs)))) \<and>
      paused (audios (playAudio B path (run B pid evs)) ! cur) \<and>
      currentTime (audios (playAudio B path (run B pid evs)) ! cur) = 0) \<and>
   currentAudio (playAudio B path (run B pid evs)) = Some (length (audios (run B pid evs))) \<and>
   playing (playAudio B path (run B pid evs)) = [length (audios (run B pid evs))]"
proof -
  have tr: "tracked_only (run B pid evs)" by (rule run_tracked)
  have stop: "occurs_before (AudioPause cur) (AudioPlay (length (audios (run B pid evs))))
        (drop (length (effects (run B pid evs)))
           (effects (playAudio B path (run B pid evs)))) \<and>
      occurs_before (AudioSetCurrentTime cur 0) (AudioPlay (length (audios (run B pid evs))))
        (drop (length (effects (run B pid evs)))
           (effects (playAudio B path (run B pid evs)))) \<and>
      paused (audios (playAudio B path (run B pid evs)) ! cur) \<and>
      currentTime (audios (playAudio B path (run B pid evs)) ! cur) = 0"
    if cur: "currentAudio (run B pid evs) = Some cur"
  proof -
    from tracked_onlyD(1) [OF tr cur] have lt: "cur < length (audios (run B pid evs))" .
    show ?thesis
      using playAudio_order [OF cur lt, of B path] playAudio_currentTime_old [OF cur lt, of B path]
        playAudio_paused_old [OF lt, of B path] cur
      by simp
  qed
  show ?thesis
    using playing_at_most_one [OF tr] playAudio_after_tracked [OF tr, of B path] stop
    by simp
qed

lemma first_playing_current: "currentAudio first_playing = Some 0"
  by (simp add: first_playing_def run_def EditorPage_init_def)

theorem single_flight_playback_witness:
  "currentAudio first_playing = Some 0 \<and>
   paused (audios (playAudio ''http://h'' (audio_path scene2) first_playing) ! 0) \<and>
   currentTime (audios (playAudio ''http://h'' (audio_path scene2) first_playing) ! 0) = 0 \<and>
   playing first_playing = [0] \<and>
   playing (playAudio ''http://h'' (audio_path scene2) first_playing) = [1]"
proof -
  have len: "length (audios first_playing) = 1"
    by (simp add: first_playing_def run_def EditorPage_init_def)
  have p: "playing first_playing = [0]"
    using playAudio_after_tracked [OF run_tracked,
      of "''http://h''" "audio_path scene1" "''http://h''" "''p1''"
         "[LoadProject (Resolved project1) (Resolved [scene1, scene2])]"]
    by (simp add: first_playing_def run_def EditorPage_init_def)
  show ?thesis
    using single_flight_playback
      [of "''http://h''" "''p1''"
          "[LoadProject (Resolved project1) (Resolved [scene1, scene2]),
            PlayAudio (audio_path scene1)]" 0 "audio_path scene2"]
      first_playing_current len p
    by (simp add: first_playing_def [symmetric])
qed

text \<open>
  Claim C8. \<open>handleEditScene\<close> pauses the tracked audio element, if there is one, and
  then sets its position to 0; afterwards the tracked reference is cleared, the scene
  is the one being edited and the draft is the scene's description. In every run of
  the editor no element is playing once edit mode has been entered.
\<close>
theorem edit_stops_audio_and_seeds_draft:
  "(currentAudio s = Some cur \<and> cur < length (audios s) \<longrightarrow>
      take 2 (drop (length (effects s)) (effects (handleEditScene sc s))) =
        [AudioPause cur, AudioSetCurrentTime cur 0] \<and>
      paused (audios (handleEditScene sc s) ! cur) \<and>
      currentTime (audios (handleEditScene sc s) ! cur) = 0) \<and>
   currentAudio (handleEditScene sc s) = None \<and>
   editingScene (handleEditScene sc s) = Some (scene_id sc) \<and>
   editText (handleEditScene sc s) = description sc \<and>
   playing (handleEditScene sc (run B pid evs)) = []"
proof -
  have "playing (handleEditScene sc (run B pid evs)) = []"
    using playing_tracked [OF handleEditScene_tracked [OF run_tracked, of sc B pid evs]]
    by simp
  then show ?thesis
    by (auto simp add: handleEditScene_effects handleEditScene_paused handleEditScene_currentTime)
qed

theorem edit_stops_audio_and_seeds_draft_witness:
  "currentAudio first_playing = Some 0 \<and>
   paused (audios (handleEditScene scene2 first_playing) ! 0) \<and>
   currentTime (audios (handleEditScene scene2 first_playing) ! 0) = 0 \<and>
   currentAudio (handleEditScene scene2 first_playing) = None \<and>
   editingScene (handleEditScene scene2 first_playing) = Some ''s2'' \<and>
   editText (handleEditScene scene2 first_playing) = ''A man walks in'' \<and>
   playing (handleEditScene scene2 first_playing) = []"
proof -
  have len: "length (audios first_playing) = 1"
    by (simp add: first_playing_def run_def EditorPage_init_def)
  have sc: "scene_id scene2 = ''s2''" "description scene2 = ''A man walks in''"
    by (simp_all add: scene2_def)
  show ?thesis
    using edit_stops_audio_and_seeds_draft
      [of first_playing 0 scene2 "''http://h''" "''p1''"
          "[LoadProject (Resolved project1) (Resolved [scene1, scene2]),
            PlayAudio (audio_path scene1)]"]
      first_playing_current len sc
    by (simp add: first_playing_def [symmetric])
qed

subsection \<open>Export progress between other events\<close>

lemma audio_op_progress [simp]:
  "exportProgress (audio_pause a s) = exportProgress s"
  "intervals (audio_pause a s) = intervals s"
  "exportProgress (audio_set_currentTime a t s) = exportProgress s"
  "intervals (audio_set_currentTime a t s) = intervals s"
  "exportProgress (audio_play a s) = exportProgress s"
  "intervals (audio_play a s) = intervals s"
  "exportProgress (snd (new_Audio url s)) = exportProgress s"
  "intervals (snd (new_Audio url s)) = intervals s"
  by (simp_all add: audio_pause_def audio_set_currentTime_def audio_play_def new_Audio_def)

lemma setCurrentAudio_progress [simp]:
  "exportProgress (setCurrentAudio v s) = exportProgress s"
  "intervals (setCurrentAudio v s) = intervals s"
  by (cases "currentAudio s = v"; cases "currentAudio s";
      simp add: setCurrentAudio_same setCurrentAudio_changed)+

lemma playAudio_progress [simp]:
  "exportProgress (playAudio B path s) = exportProgress s"
  "intervals (playAudio B path s) = intervals s"
  by (cases "currentAudio s"; simp add: playAudio_unfold)+

lemma handleEditScene_progress [simp]:
  "exportProgress (handleEditScene sc s) = exportProgress s"
  "intervals (handleEditScene sc s) = intervals s"
  by (cases "currentAudio s"; simp add: handleEditScene_unfold)+

lemma loadProject_progress [simp]:
  "exportProgress (loadProject B pr sr s) = exportProgress s"
  "intervals (loadProject B pr sr s) = intervals s"
  by (cases pr; cases sr; simp add: loadProject_def Let_def)+

lemma handleSaveScene_progress [simp]:
  "exportProgress (handleSaveScene B sid res s) = exportProgress s"
  "intervals (handleSaveScene B sid res s) = intervals s"
  by (cases res; simp add: handleSaveScene_def Let_def)+

lemma quiet_frame:
  assumes "quiet ev"
  shows "exportProgress (apply_event B s ev) = exportProgress s"
    and "intervals (apply_event B s ev) = intervals s"
  using assms
  by (cases ev; simp add: audio_onended_def audio_onerror_def audio_play_catch_def)+

lemma quiet_foldl:
  "list_all quiet evs \<Longrightarrow>
   exportProgress (foldl (apply_event B) s evs) = exportProgress s \<and>
   intervals (foldl (apply_event B) s evs) = intervals s"
  by (induction evs arbitrary: s) (simp_all add: quiet_frame)

lemma pending_Nil: "pending B s [] = snd (handleExport_start B s)"
  by (simp add: pending_def)

lemma pending_snoc:
  "pending B s (evss @ [evs]) =
     interval_fires (fst (handleExport_start B s)) (foldl (apply_event B) (pending B s evss) evs)"
  by (simp add: pending_def)

lemma pending_intervals:
  "list_all (list_all quiet) evss \<Longrightarrow>
   intervals (pending B s evss) = insert (next_timer s) (intervals s)"
proof (induction evss rule: rev_induct)
  case Nil
  show ?case by (simp add: pending_Nil start_state)
next
  case (snoc evs evss)
  then have q: "list_all quiet evs" and IH: "intervals (pending B s evss) = insert (next_timer s) (intervals s)"
    by simp_all
  show ?case
    using quiet_foldl [OF q, of B "pending B s evss"] IH
    by (simp add: pending_snoc)
qed

lemma pending_running:
  assumes "list_all (list_all quiet) evss" and "list_all quiet evs"
  shows "progressInterval (fst (handleExport_start B s))
           \<in> intervals (foldl (apply_event B) (pending B s evss) evs)"
  using quiet_foldl [OF assms(2), of B "pending B s evss"] pending_intervals [OF assms(1), of B s]
  by (simp add: start_job)

lemma pending_next:
  assumes "list_all (list_all quiet) evss" and "list_all quiet evs"
  shows "exportProgress (pending B s (evss @ [evs])) =
           progress_update (estimate (length (scenes s))) (exportProgress (pending B s evss))"
  using pending_running [OF assms, of B s] quiet_foldl [OF assms(2), of B "pending B s evss"]
  by (simp add: pending_snoc interval_fires_def start_job)

lemma pending_bounds:
  "list_all (list_all quiet) evss \<Longrightarrow>
   0 \<le> exportProgress (pending B s evss) \<and> exportProgress (pending B s evss) \<le> 95"
proof (induction evss rule: rev_induct)
  case Nil
  show ?case by (simp add: pending_Nil start_state)
next
  case (snoc evs evss)
  then have q: "list_all (list_all quiet) evss" "list_all quiet evs"
    and IH: "0 \<le> exportProgress (pending B s evss)" "exportProgress (pending B s evss) \<le> 95"
    by simp_all
  show ?case
    using progress_update_step(1,2) [OF estimate_pos IH, of "length (scenes s)"] IH(1)
    by (simp add: pending_next [OF q])
qed

text \<open>
  Claim C2, as amended. Take an export whose request is pending, and let nothing but
  its own interval write the progress: between two ticks any user action, request
  outcome or audio callback may happen, but no other export starts or settles and no
  close-dialog timeout of an earlier export fires. Then the interval stays active, the
  progress stays between 0 and 95 and is changed by the ticks only, and it never
  decreases from one tick to the next: a tick strictly increases it as long as it is
  below 95, and once it has reached 95 further ticks leave it at 95. When the request
  resolves the progress is set to 100, and when it is rejected the progress is reset
  to 0.
\<close>
theorem progress_increases_up_to_cap:
  assumes "list_all (list_all quiet) evss" and "list_all quiet evs"
  shows "progressInterval (fst (handleExport_start B s))
           \<in> intervals (foldl (apply_event B) (pending B s evss) evs) \<and>
         exportProgress (foldl (apply_event B) (pending B s evss) evs) =
           exportProgress (pending B s evss) \<and>
         0 \<le> exportProgress (pending B s evss) \<and>
         exportProgress (pending B s evss) \<le> 95 \<and>
         exportProgress (pending B s evss) \<le> exportProgress (pending B s (evss @ [evs])) \<and>
         (exportProgress (pending B s evss) < 95 \<longrightarrow>
            exportProgress (pending B s evss) < exportProgress (pending B s (evss @ [evs]))) \<and>
         (exportProgress (pending B s evss) = 95 \<longrightarrow>
            exportProgress (pending B s (evss @ [evs])) = 95) \<and>
         exportProgress (handleExport_resolved B (fst (handleExport_start B s)) url dl
                           (foldl (apply_event B) (pending B s evss) evs)) = 100 \<and>
         exportProgress (handleExport_rejected (fst (handleExport_start B s)) err
                           (foldl (apply_event B) (pending B s evss) evs)) = 0"
proof -
  note b = pending_bounds [OF assms(1), of B s]
  from b have lo: "0 \<le> exportProgress (pending B s evss)"
    and hi: "exportProgress (pending B s evss) \<le> 95" by simp_all
  show ?thesis
    using pending_running [OF assms, of B s] quiet_foldl [OF assms(2), of B "pending B s evss"]
      progress_update_step [OF estimate_pos lo hi, of "length (scenes s)"] lo hi
    by (simp add: pending_next [OF assms] resolved_fields rejected_fields)
qed

lemma pending_export_run:
  "pending B s (replicate k []) = export_run B s k"
proof (induction k)
  case 0
  show ?case by (simp add: pending_Nil export_run_def)
next
  case (Suc k)
  have "replicate (Suc k) ([] :: editor_event list) = replicate k [] @ [[]]"
    by (simp add: replicate_append_same)
  then show ?case using Suc by (simp add: pending_snoc export_run_def del: replicate.simps)
qed

text \<open>
  The claim as stated (strictly increasing on every tick while the timer runs) fails:
  an export of a loaded project with one scene reaches 95 after 20 ticks, and the
  21st tick, with the interval still active, leaves the progress at 95.
\<close>
theorem progress_stalls_at_cap:
  "progressInterval (fst (handleExport_start ''http://h'' export_ready))
     \<in> intervals (export_run ''http://h'' export_ready 21) \<and>
   exportProgress (export_run ''http://h'' export_ready 20) = 95 \<and>
   \<not> exportProgress (export_run ''http://h'' export_ready 20)
       < exportProgress (export_run ''http://h'' export_ready 21)"
proof -
  have "exportProgress (export_run ''http://h'' export_ready 21) =
          progress_update (estimate 1) 95"
    using export_run_Suc [of "''http://h''" export_ready 20]
    by (simp add: export_ready_20 export_ready_scenes)
  then have "exportProgress (export_run ''http://h'' export_ready 21) = 95"
    by (simp add: progress_update_def)
  then show ?thesis
    by (simp add: export_run_running export_ready_20)
qed

theorem progress_increases_up_to_cap_witness:
  "list_all (list_all quiet) [[PlayAudio (audio_path scene1)]] \<and>
   list_all quiet [ChangeEditText ''A door'', AudioEnded] \<and>
   exportProgress (pending ''http://h'' export_ready [[PlayAudio (audio_path scene1)]]) = 17 / 2 \<and>
   exportProgress (pending ''http://h'' export_ready [[PlayAudio (audio_path scene1)]])
     < exportProgress (pending ''http://h'' export_ready
         ([[PlayAudio (audio_path scene1)]] @ [[ChangeEditText ''A door'', AudioEnded]]))"
proof -
  have q: "list_all (list_all quiet) [[PlayAudio (audio_path scene1)]]"
    "list_all quiet [ChangeEditText ''A door'', AudioEnded]"
    by simp_all
  have "list_all (list_all quiet) []" "list_all quiet [PlayAudio (audio_path scene1)]"
    by simp_all
  from pending_next [OF this, of "''http://h''" export_ready]
  have first: "exportProgress (pending ''http://h'' export_ready [[PlayAudio (audio_path scene1)]]) = 17 / 2"
    by (simp add: pending_Nil start_state export_ready_scenes progress_update_def estimate_def)
  then have below: "exportProgress (pending ''http://h'' export_ready [[PlayAudio (audio_path scene1)]]) < 95"
    by simp
  show ?thesis
    using progress_increases_up_to_cap [OF q, of "''http://h''" export_ready] q first below
    by blast
qed

text \<open>
  Why the amended claim sets the close-dialog timeout aside: a finished export leaves
  its 1500 ms timeout pending while the confirm button is enabled again. If a second
  export is started in that window, the timeout resets its progress, here from 17 back
  to 0 with the second interval still active, so that the next tick shows 8.5.
\<close>
lemma first_export_done_scenes: "length (scenes first_export_done) = 1"
  by (simp add: first_export_done_def handleExport_resolved_def handleExport_start_def
        setInterval_def clearInterval_def Let_def export_ready_scenes)

lemma second_export_2: "exportProgress (export_run ''http://h'' first_export_done 2) = 17"
  apply (simp add: eval_nat_numeral export_run_Suc first_export_done_scenes)
  apply (simp add: export_run_def start_state progress_update_def estimate_def)
  done

lemma stale_timeout_resets_progress:
  "exportProgress (export_run ''http://h'' first_export_done 2) = 17 \<and>
   progressInterval (fst (handleExport_start ''http://h'' first_export_done))
     \<in> intervals (close_dialog_timeout (export_run ''http://h'' first_export_done 2)) \<and>
   exportProgress
     (interval_fires (fst (handleExport_start ''http://h'' first_export_done))
        (close_dialog_timeout (export_run ''http://h'' first_export_done 2))) = 17 / 2"
proof -
  have run: "progressInterval (fst (handleExport_start ''http://h'' first_export_done))
     \<in> intervals (close_dialog_timeout (export_run ''http://h'' first_export_done 2))"
    using export_run_running [of "''http://h''" first_export_done 2]
    by (simp add: close_dialog_timeout_def)
  then have "exportProgress
     (interval_fires (fst (handleExport_start ''http://h'' first_export_done))
        (close_dialog_timeout (export_run ''http://h'' first_export_done 2))) =
     progress_update (estimate 1) 0"
    by (simp add: interval_fires_def start_job first_export_done_scenes close_dialog_timeout_def)
  then show ?thesis
    using run second_export_2 by (simp add: progress_update_def estimate_def)
qed

end
